theory Spec2Isabelle
  imports Main "HOL-Library.Char_ord" "HOL-Library.List_Lexorder"
begin

section \<open>The LogSeq directory selector (src/test.py)\<close>

text \<open>
  A shallow embedding of the three classes of \<^verbatim>\<open>src/test.py\<close>:
  \<^verbatim>\<open>LogSeqValidator\<close>, \<^verbatim>\<open>FileTable\<close> and \<^verbatim>\<open>LogSeqDirectorySelector\<close>
  (with its \<^verbatim>\<open>LogSeqStatus\<close> widget).

  Python strings are modelled as \<^typ>\<open>string\<close> holding their UTF-8 encoding, ordered
  lexicographically by byte, which is the code point order Python compares strings by.
  Exceptions are values of the type \<open>exn\<close>. The operating system and the language
  runtime are a record \<open>host\<close> of functions, so every theorem holds for every file
  system and every behaviour of \<^verbatim>\<open>str.lower\<close>.
\<close>

subsection \<open>Exceptions\<close>

datatype exn = PermissionError | OSError | OverflowError | RowDoesNotExist

text \<open>
  \<open>OSError\<close> stands for every \<^verbatim>\<open>OSError\<close> that is not a \<^verbatim>\<open>PermissionError\<close>;
  \<^verbatim>\<open>except (PermissionError, OSError)\<close> catches both.
\<close>

definition is_os_error :: "exn \<Rightarrow> bool" where
  "is_os_error e = (e = PermissionError \<or> e = OSError)"

subsection \<open>String literals and string operations\<close>

definition back_icon :: string where
  "back_icon = [CHR 0xF0, CHR 0x9F, CHR 0x94, CHR 0x99]"

definition up_icon :: string where
  "up_icon = [CHR 0xE2, CHR 0xAC, CHR 0x86, CHR 0xEF, CHR 0xB8, CHR 0x8F]"

definition folder_icon :: string where
  "folder_icon = [CHR 0xF0, CHR 0x9F, CHR 0x93, CHR 0x81]"

definition page_icon :: string where
  "page_icon = [CHR 0xF0, CHR 0x9F, CHR 0x93, CHR 0x84]"

definition lock_icon :: string where
  "lock_icon = [CHR 0xF0, CHR 0x9F, CHR 0x94, CHR 0x92]"

definition check_mark :: string where
  "check_mark = [CHR 0xE2, CHR 0x9C, CHR 0x85]"

definition cross_mark :: string where
  "cross_mark = [CHR 0xE2, CHR 0x9D, CHR 0x8C]"

definition calendar_icon :: string where
  "calendar_icon = [CHR 0xF0, CHR 0x9F, CHR 0x93, CHR 0x85]"

definition back_label :: string where
  "back_label = back_icon @ '' Back''"

definition up_label :: string where
  "up_label = up_icon @ '' Up''"

definition folder_prefix :: string where
  "folder_prefix = folder_icon @ '' ''"

definition page_prefix :: string where
  "page_prefix = page_icon @ '' ''"

text \<open>\<^verbatim>\<open>s.startswith(p)\<close>\<close>

definition startswith :: "string \<Rightarrow> string \<Rightarrow> bool" where
  "startswith s p = (take (length p) s = p)"

text \<open>
  \<^verbatim>\<open>s.replace(old, new)\<close>: every occurrence of \<open>old\<close>, found from the left
  and not overlapping, is replaced. With an empty \<open>old\<close> Python puts \<open>new\<close> before
  every character and at the end.
\<close>

function str_replace :: "string \<Rightarrow> string \<Rightarrow> string \<Rightarrow> string" where
  "str_replace old new s =
     (if old = [] then new @ concat (map (\<lambda>c. c # new) s)
      else if s = [] then []
      else if startswith s old then new @ str_replace old new (drop (length old) s)
      else hd s # str_replace old new (tl s))"
  by pat_completeness auto
termination
  by (relation "measure (\<lambda>(old, new, s). length s)") auto

declare str_replace.simps [simp del]


definition digit_char :: "nat \<Rightarrow> char" where
  "digit_char d = ''0123456789'' ! d"

text \<open>\<^verbatim>\<open>str(n)\<close> of a natural number, as an f-string prints a count.\<close>

fun str_nat :: "nat \<Rightarrow> string" where
  "str_nat n =
     (if n < 10 then [digit_char n] else str_nat (n div 10) @ [digit_char (n mod 10)])"

declare str_nat.simps [simp del]

subsection \<open>Numbers: \<^verbatim>\<open>FileTable._format_size\<close>\<close>

text \<open>
  \<^verbatim>\<open>
  def _format_size(self, size: int) -> str:
      for unit in ['B', 'KB', 'MB', 'GB']:
          if size < 1024.0:
              return f"{size:.0f}{unit}"
          size /= 1024.0
      return f"{size:.0f}TB"
  \<close>
  The variable \<open>size\<close> holds an \<^verbatim>\<open>int\<close> on entry and a \<^verbatim>\<open>float\<close> after the first
  division. A float is modelled exactly: \<open>PyFloat m e\<close> is the double of value
  \<open>m / 2 ^ e\<close>. Converting an \<^verbatim>\<open>int\<close> to a double rounds it to 53 significant
  bits, ties to even, and raises \<^verbatim>\<open>OverflowError\<close> when the rounded value reaches
  \<open>2 ^ 1024\<close>. Dividing a double that is at least 1024 by \<open>1024.0\<close> is exact (the
  exponent drops by 10). The format \<^verbatim>\<open>.0f\<close> prints the nearest integer of the exact
  value, ties to even.
\<close>

datatype number = PyInt int | PyFloat nat nat

text \<open>\<^verbatim>\<open>int.bit_length()\<close>\<close>

fun bit_length :: "nat \<Rightarrow> nat" where
  "bit_length n = (if n = 0 then 0 else Suc (bit_length (n div 2)))"

declare bit_length.simps [simp del]

text \<open>The integer nearest to \<open>m / d\<close>, ties to the even one.\<close>

definition round_half_even_div :: "nat \<Rightarrow> nat \<Rightarrow> nat" where
  "round_half_even_div m d =
     (let q = m div d; r = m mod d in
      if 2 * r < d then q else if d < 2 * r then q + 1 else if even q then q else q + 1)"

text \<open>The value of the double nearest to the natural number \<open>a\<close>.\<close>

definition round_to_53 :: "nat \<Rightarrow> nat" where
  "round_to_53 a = (let e = bit_length a - 53 in round_half_even_div a (2 ^ e) * 2 ^ e)"

text \<open>\<^verbatim>\<open>float(n)\<close>: the magnitude of the double, or \<^verbatim>\<open>OverflowError\<close>.\<close>

definition int_to_float :: "int \<Rightarrow> exn + nat" where
  "int_to_float n =
     (let a = round_to_53 (nat \<bar>n\<bar>) in if 2 ^ 1024 \<le> a then Inl OverflowError else Inr a)"

text \<open>\<^verbatim>\<open>size < 1024.0\<close>: Python compares an int with a float exactly.\<close>

fun lt_1024 :: "number \<Rightarrow> bool" where
  "lt_1024 (PyInt n) = (n < 1024)"
| "lt_1024 (PyFloat m e) = (m < 1024 * 2 ^ e)"

text \<open>
  \<^verbatim>\<open>size /= 1024.0\<close>. It is reached only when \<open>size\<close> is at least 1024, so the
  double it makes of an \<^verbatim>\<open>int\<close> is not negative.
\<close>

fun truediv_1024 :: "number \<Rightarrow> exn + number" where
  "truediv_1024 (PyInt n) =
     (case int_to_float n of Inl x \<Rightarrow> Inl x | Inr a \<Rightarrow> Inr (PyFloat a 10))"
| "truediv_1024 (PyFloat m e) = Inr (PyFloat m (e + 10))"

text \<open>\<^verbatim>\<open>f"{size:.0f}"\<close>\<close>

fun format_0f :: "number \<Rightarrow> exn + string" where
  "format_0f (PyInt n) =
     (case int_to_float n of
        Inl x \<Rightarrow> Inl x
      | Inr a \<Rightarrow> Inr ((if n < 0 then ''-'' else '''') @ str_nat a))"
| "format_0f (PyFloat m e) = Inr (str_nat (round_half_even_div m (2 ^ e)))"

fun format_units :: "string list \<Rightarrow> number \<Rightarrow> exn + string" where
  "format_units [] sz =
     (case format_0f sz of Inl x \<Rightarrow> Inl x | Inr s \<Rightarrow> Inr (s @ ''TB''))"
| "format_units (unit # units) sz =
     (if lt_1024 sz
      then (case format_0f sz of Inl x \<Rightarrow> Inl x | Inr s \<Rightarrow> Inr (s @ unit))
      else (case truediv_1024 sz of
              Inl x \<Rightarrow> Inl x
            | Inr sz' \<Rightarrow> format_units units sz'))"

definition format_size :: "int \<Rightarrow> exn + string" where
  "format_size sz = format_units [''B'', ''KB'', ''MB'', ''GB''] (PyInt sz)"




subsection \<open>Paths and the host\<close>

text \<open>
  A path is absolute (\<^verbatim>\<open>Path.cwd()\<close>, \<^verbatim>\<open>resolve()\<close> and everything derived from
  them): the list of its components below the root, the root being \<open>[]\<close>.
\<close>

type_synonym path = "string list"

text \<open>
  \<^verbatim>\<open>directory / name\<close> for a name without a separator: pathlib drops an empty
  component and the component \<^verbatim>\<open>.\<close>, and keeps every other one, also \<^verbatim>\<open>..\<close>.
\<close>

definition joinpath :: "path \<Rightarrow> string \<Rightarrow> path" where
  "joinpath directory name =
     (if name = [] \<or> name = ''.'' then directory else directory @ [name])"

text \<open>\<^verbatim>\<open>directory.parent\<close>: the parent of the root is the root.\<close>

definition parent :: "path \<Rightarrow> path" where
  "parent directory = butlast directory"

text \<open>
  What the program asks of the file system and of the runtime. \<open>path_exists\<close> and
  \<open>path_is_dir\<close> are \<^verbatim>\<open>Path.exists()\<close> and \<^verbatim>\<open>Path.is_dir()\<close>, taken as total
  (they answer \<open>False\<close> where the path cannot be examined); \<open>path_iterdir\<close> gives
  the names of the children in the order of enumeration or the exception raised;
  \<open>path_stat_size\<close> is \<^verbatim>\<open>item.stat().st_size\<close>; \<open>path_glob\<close> is
  \<^verbatim>\<open>list(p.glob(pattern))\<close>; \<open>path_resolve\<close> is
  \<^verbatim>\<open>Path(text).expanduser().resolve()\<close>, \<open>None\<close> when it raises; \<open>str_lower\<close> is
  \<^verbatim>\<open>str.lower\<close>.
\<close>

record host =
  path_exists :: "path \<Rightarrow> bool"
  path_is_dir :: "path \<Rightarrow> bool"
  path_iterdir :: "path \<Rightarrow> exn + string list"
  path_stat_size :: "path \<Rightarrow> exn + int"
  path_glob :: "path \<Rightarrow> string \<Rightarrow> exn + string list"
  path_resolve :: "string \<Rightarrow> path option"
  str_lower :: "string \<Rightarrow> string"

subsection \<open>\<^verbatim>\<open>LogSeqValidator.validate_logseq_structure\<close>\<close>

definition required_items :: "string list" where
  "required_items = [''logseq'', ''pages'', ''journals'']"

definition not_a_directory_line :: string where
  "not_a_directory_line =
     folder_icon @ '' Path doesn'' @ [CHR 0x27] @ ''t exist or isn'' @ [CHR 0x27]
       @ ''t a directory''"

text \<open>The \<^verbatim>\<open>for item in required_items\<close> loop, on the pair \<open>(is_valid, summary)\<close>.\<close>

fun check_required_items ::
  "host \<Rightarrow> path \<Rightarrow> string list \<Rightarrow> bool \<times> string list \<Rightarrow> bool \<times> string list" where
  "check_required_items h directory [] (valid, summary) = (valid, summary)"
| "check_required_items h directory (item # items) (valid, summary) =
     (let item_path = joinpath directory item in
      if path_exists h item_path \<and> path_is_dir h item_path
      then check_required_items h directory items
             (valid, summary @ [check_mark @ '' '' @ item @ ''/''])
      else check_required_items h directory items
             (False, summary @ [cross_mark @ '' '' @ item @ ''/'']))"

definition pages_line :: "nat \<Rightarrow> string" where
  "pages_line md_count = page_icon @ '' '' @ str_nat md_count @ '' pages''"

definition journals_line :: "nat \<Rightarrow> string" where
  "journals_line journal_count = calendar_icon @ '' '' @ str_nat journal_count @ '' journals''"

text \<open>
  The \<^verbatim>\<open>try: ... except: pass\<close> block that counts the notes: an exception leaves
  the block with the summary as it is at that moment.
\<close>

definition count_content :: "host \<Rightarrow> path \<Rightarrow> string list \<Rightarrow> string list" where
  "count_content h directory summary =
     (let pages_dir = joinpath directory ''pages'';
          journals_dir = joinpath directory ''journals'' in
      case (if path_exists h pages_dir
            then (case path_glob h pages_dir ''*.md'' of
                    Inl x \<Rightarrow> Inl x
                  | Inr found \<Rightarrow> Inr (summary @ [pages_line (length found)]))
            else Inr summary) of
        Inl x \<Rightarrow> summary
      | Inr summary1 \<Rightarrow>
          (if path_exists h journals_dir
           then (case path_glob h journals_dir ''*.md'' of
                   Inl x \<Rightarrow> summary1
                 | Inr found \<Rightarrow> summary1 @ [journals_line (length found)])
           else summary1))"

definition validate_logseq_structure :: "host \<Rightarrow> path \<Rightarrow> bool \<times> string list" where
  "validate_logseq_structure h directory =
     (if \<not> path_exists h directory \<or> \<not> path_is_dir h directory
      then (False, [not_a_directory_line])
      else (case check_required_items h directory required_items (True, []) of
              (valid, summary) \<Rightarrow> (valid, count_content h directory summary)))"

subsection \<open>\<^verbatim>\<open>FileTable\<close>\<close>

text \<open>A row of the table: display name, type (\<open>NAV\<close>, \<open>DIR\<close>, \<open>FILE\<close>, \<open>ERROR\<close>), size.\<close>

type_synonym row = "string \<times> string \<times> string"

record file_table =
  current_directory :: "path option"
  directory_history :: "path list"
  rows :: "row list"

definition new_file_table :: file_table where
  "new_file_table = \<lparr>current_directory = None, directory_history = [], rows = []\<rparr>"

definition back_row :: row where
  "back_row = (back_label, ''NAV'', [])"

definition up_row :: row where
  "up_row = (up_label, ''NAV'', [])"

definition error_row :: row where
  "error_row = (lock_icon @ '' Permission denied'', ''ERROR'', [])"

text \<open>What one child of the directory adds: nothing, a row of \<open>directories\<close>, a row of \<open>files\<close>.\<close>

datatype scanned = Skipped | DirRow row | FileRow row

text \<open>The handler \<^verbatim>\<open>except (PermissionError, OSError)\<close> of the loop body.\<close>

definition locked_entry :: "host \<Rightarrow> path \<Rightarrow> string \<Rightarrow> scanned" where
  "locked_entry h item name =
     (if path_is_dir h item then DirRow (folder_prefix @ name, ''DIR'', ''locked'')
      else FileRow (page_prefix @ name, ''FILE'', ''locked''))"

text \<open>
  The body of \<^verbatim>\<open>for item in directory.iterdir()\<close> for the child called \<open>name\<close>. The
  inner \<^verbatim>\<open>try: ... except:\<close> around the count of a folder's children catches
  everything.
\<close>

definition scan_item :: "host \<Rightarrow> path \<Rightarrow> string \<Rightarrow> exn + scanned" where
  "scan_item h directory name =
     (let item = directory @ [name] in
      if startswith name ''.'' \<and> name \<notin> set [''.logseq''] then Inr Skipped
      else (case path_stat_size h item of
              Inl x \<Rightarrow> if is_os_error x then Inr (locked_entry h item name) else Inl x
            | Inr st_size \<Rightarrow>
                if path_is_dir h item
                then Inr (DirRow (folder_prefix @ name, ''DIR'',
                       (case path_iterdir h item of
                          Inl x \<Rightarrow> ''folder''
                        | Inr children \<Rightarrow> str_nat (length children) @ '' items'')))
                else (case format_size st_size of
                        Inl x \<Rightarrow>
                          if is_os_error x then Inr (locked_entry h item name) else Inl x
                      | Inr s \<Rightarrow> Inr (FileRow (page_prefix @ name, ''FILE'', s)))))"

text \<open>The loop over the children, on the pair \<open>(directories, files)\<close>.\<close>

fun scan_items ::
  "host \<Rightarrow> path \<Rightarrow> string list \<Rightarrow> row list \<times> row list \<Rightarrow> exn + row list \<times> row list" where
  "scan_items h directory [] (directories, files) = Inr (directories, files)"
| "scan_items h directory (name # names) (directories, files) =
     (case scan_item h directory name of
        Inl x \<Rightarrow> Inl x
      | Inr Skipped \<Rightarrow> scan_items h directory names (directories, files)
      | Inr (DirRow r) \<Rightarrow> scan_items h directory names (directories @ [r], files)
      | Inr (FileRow r) \<Rightarrow> scan_items h directory names (directories, files @ [r]))"

text \<open>The sort key \<^verbatim>\<open>lambda x: x[0].lower()\<close>.\<close>

definition sort_name :: "host \<Rightarrow> row \<Rightarrow> string" where
  "sort_name h r = str_lower h (fst r)"

text \<open>
  The body of the outer \<^verbatim>\<open>try\<close> of \<^verbatim>\<open>load_directory\<close>: the entries it would add to
  the table, or the exception that leaves it. \<^verbatim>\<open>list.sort\<close> is stable, as
  \<^const>\<open>sort_key\<close> is.
\<close>

definition list_entries :: "host \<Rightarrow> file_table \<Rightarrow> path \<Rightarrow> exn + row list" where
  "list_entries h tbl directory =
     (let entries =
            (if directory_history tbl \<noteq> [] then [back_row] else [])
              @ (if parent directory \<noteq> directory then [up_row] else []) in
      case path_iterdir h directory of
        Inl x \<Rightarrow> Inl x
      | Inr names \<Rightarrow>
          (case scan_items h directory names ([], []) of
             Inl x \<Rightarrow> Inl x
           | Inr (directories, files) \<Rightarrow>
               Inr (entries @ sort_key (sort_name h) directories
                      @ sort_key (sort_name h) files)))"

text \<open>
  \<^verbatim>\<open>load_directory(directory, add_to_history)\<close>. The result is the table and the
  exception that leaves the method, if one does: only \<^verbatim>\<open>PermissionError\<close> is caught
  by the outer \<^verbatim>\<open>try\<close>.
\<close>

definition load_directory ::
  "host \<Rightarrow> file_table \<Rightarrow> path \<Rightarrow> bool \<Rightarrow> file_table \<times> exn option" where
  "load_directory h tbl directory add_to_history =
     (let tbl1 =
            (case current_directory tbl of
               None \<Rightarrow> tbl
             | Some cur \<Rightarrow>
                 if add_to_history \<and> cur \<noteq> directory
                 then tbl\<lparr>directory_history := directory_history tbl @ [cur]\<rparr>
                 else tbl);
          tbl2 = tbl1\<lparr>current_directory := Some directory, rows := []\<rparr> in
      if \<not> path_exists h directory \<or> \<not> path_is_dir h directory then (tbl2, None)
      else (case list_entries h tbl2 directory of
              Inr entries \<Rightarrow> (tbl2\<lparr>rows := entries\<rparr>, None)
            | Inl x \<Rightarrow>
                if x = PermissionError then (tbl2\<lparr>rows := [error_row]\<rparr>, None)
                else (tbl2, Some x)))"

text \<open>\<^verbatim>\<open>go_back\<close>: pops the history.\<close>

definition go_back :: "file_table \<Rightarrow> file_table \<times> path option" where
  "go_back tbl =
     (if directory_history tbl \<noteq> []
      then (tbl\<lparr>directory_history := butlast (directory_history tbl)\<rparr>,
            Some (last (directory_history tbl)))
      else (tbl, None))"

text \<open>
  \<^verbatim>\<open>table.get_row(key)\<close> of the toolkit, the key of a row being its position among
  the rows loaded last; an unknown key raises \<^verbatim>\<open>RowDoesNotExist\<close>.
\<close>

definition get_row :: "file_table \<Rightarrow> nat \<Rightarrow> exn + row" where
  "get_row tbl k = (if k < length (rows tbl) then Inr (rows tbl ! k) else Inl RowDoesNotExist)"

subsection \<open>\<^verbatim>\<open>LogSeqStatus\<close>\<close>

text \<open>
  The status widget keeps the path checked last and the verdict of that check; the text
  it renders is kept as the summary lines.
\<close>

record logseq_status =
  current_path :: "path option"
  is_valid :: bool
  shown_summary :: "string list"

definition new_logseq_status :: logseq_status where
  "new_logseq_status = \<lparr>current_path = None, is_valid = False, shown_summary = []\<rparr>"

definition status_check_logseq_structure ::
  "host \<Rightarrow> logseq_status \<Rightarrow> path \<Rightarrow> logseq_status" where
  "status_check_logseq_structure h st p =
     (case validate_logseq_structure h p of
        (valid, summary) \<Rightarrow>
          st\<lparr>current_path := Some p, is_valid := valid, shown_summary := summary\<rparr>)"

subsection \<open>\<^verbatim>\<open>LogSeqDirectorySelector\<close>\<close>

text \<open>The notifications of the application, in the order of the calls of \<^verbatim>\<open>notify\<close>.\<close>

datatype notice =
  Selected path
| CannotSelect
| AlreadyAtStart
| Refreshed
| InvalidPath
| ErrorNotice

record app =
  app_current_directory :: path
  selected_directory :: "path option"
  table :: file_table
  status :: logseq_status
  notices :: "notice list"

definition new_app :: "path \<Rightarrow> app" where
  "new_app cwd =
     \<lparr>app_current_directory = cwd, selected_directory = None, table = new_file_table,
      status = new_logseq_status, notices = []\<rparr>"

definition notify :: "app \<Rightarrow> notice \<Rightarrow> app" where
  "notify a n = a\<lparr>notices := notices a @ [n]\<rparr>"

text \<open>\<^verbatim>\<open>check_logseq_structure(path=None)\<close>: \<^verbatim>\<open>target_path = path or self.current_directory\<close>.\<close>

definition check_logseq_structure :: "host \<Rightarrow> app \<Rightarrow> path option \<Rightarrow> app" where
  "check_logseq_structure h a p =
     (let target_path = (case p of None \<Rightarrow> app_current_directory a | Some q \<Rightarrow> q) in
      a\<lparr>status := status_check_logseq_structure h (status a) target_path\<rparr>)"

text \<open>
  \<^verbatim>\<open>refresh_all\<close>: reloads the table for the current directory, with the default
  \<^verbatim>\<open>add_to_history=True\<close>, then checks the current directory. The title and the
  path input it also sets are rendering only.
\<close>

definition refresh_all :: "host \<Rightarrow> app \<Rightarrow> app \<times> exn option" where
  "refresh_all h a =
     (case load_directory h (table a) (app_current_directory a) True of
        (tbl, Some x) \<Rightarrow> (a\<lparr>table := tbl\<rparr>, Some x)
      | (tbl, None) \<Rightarrow> (check_logseq_structure h (a\<lparr>table := tbl\<rparr>) None, None))"

definition on_mount :: "host \<Rightarrow> app \<Rightarrow> app \<times> exn option" where
  "on_mount h a = refresh_all h a"

definition action_go_back :: "host \<Rightarrow> app \<Rightarrow> app \<times> exn option" where
  "action_go_back h a =
     (case go_back (table a) of
        (tbl, Some previous_dir) \<Rightarrow>
          refresh_all h (a\<lparr>table := tbl, app_current_directory := previous_dir\<rparr>)
      | (tbl, None) \<Rightarrow> (notify (a\<lparr>table := tbl\<rparr>) AlreadyAtStart, None))"

definition action_select_current :: "app \<Rightarrow> app" where
  "action_select_current a =
     (if is_valid (status a)
      then notify (a\<lparr>selected_directory := Some (app_current_directory a)\<rparr>)
             (Selected (app_current_directory a))
      else notify a CannotSelect)"

definition action_refresh :: "host \<Rightarrow> app \<Rightarrow> app \<times> exn option" where
  "action_refresh h a =
     (case refresh_all h a of
        (a', Some x) \<Rightarrow> (a', Some x)
      | (a', None) \<Rightarrow> (notify a' Refreshed, None))"

text \<open>
  \<^verbatim>\<open>on_file_table_row_selected\<close>: \<open>row_key\<close> is \<^verbatim>\<open>event.row_key\<close>. For a row of
  type \<open>DIR\<close> the handler checks the folder of the row and does not enter it.
\<close>

definition on_file_table_row_selected ::
  "host \<Rightarrow> app \<Rightarrow> nat option \<Rightarrow> app \<times> exn option" where
  "on_file_table_row_selected h a row_key =
     (case (current_directory (table a), row_key) of
        (Some cur, Some k) \<Rightarrow>
          (case get_row (table a) k of
             Inl x \<Rightarrow> (a, Some x)
           | Inr (filename, kind, sz) \<Rightarrow>
               if filename = back_label then action_go_back h a
               else if filename = up_label
               then refresh_all h (a\<lparr>app_current_directory := parent cur\<rparr>)
               else if kind = ''DIR''
               then (check_logseq_structure h a
                       (Some (joinpath cur (str_replace folder_prefix [] filename))), None)
               else (a, None))
      | _ \<Rightarrow> (a, None))"

text \<open>
  \<^verbatim>\<open>action_open_selected\<close>: \<open>cursor_row\<close> is \<^verbatim>\<open>table.cursor_row\<close>, the row the
  cursor of the toolkit is on.
\<close>

definition action_open_selected :: "host \<Rightarrow> app \<Rightarrow> nat \<Rightarrow> app \<times> exn option" where
  "action_open_selected h a cursor_row =
     (case current_directory (table a) of
        Some cur \<Rightarrow>
          (case get_row (table a) cursor_row of
             Inl x \<Rightarrow> (a, Some x)
           | Inr (filename, kind, sz) \<Rightarrow>
               if filename = back_label then action_go_back h a
               else if filename = up_label
               then refresh_all h (a\<lparr>app_current_directory := parent cur\<rparr>)
               else if kind = ''DIR''
               then refresh_all h
                      (a\<lparr>app_current_directory :=
                           joinpath cur (str_replace folder_prefix [] filename)\<rparr>)
               else (a, None))
      | None \<Rightarrow> (a, None))"

text \<open>
  \<^verbatim>\<open>on_input_submitted\<close>: \<^verbatim>\<open>except Exception\<close> also catches what
  \<^verbatim>\<open>refresh_all\<close> raises, and the session goes on in the state reached.
\<close>

definition on_input_submitted :: "host \<Rightarrow> app \<Rightarrow> string \<Rightarrow> string \<Rightarrow> app \<times> exn option" where
  "on_input_submitted h a input_id text_value =
     (if input_id = ''path-input''
      then (case path_resolve h text_value of
              None \<Rightarrow> (notify a ErrorNotice, None)
            | Some new_path \<Rightarrow>
                if path_exists h new_path \<and> path_is_dir h new_path
                then (case refresh_all h (a\<lparr>app_current_directory := new_path\<rparr>) of
                        (a', Some x) \<Rightarrow> (notify a' ErrorNotice, None)
                      | (a', None) \<Rightarrow> (a', None))
                else (notify a InvalidPath, None))
      else (a, None))"

definition on_button_pressed :: "host \<Rightarrow> app \<Rightarrow> string \<Rightarrow> app \<times> exn option" where
  "on_button_pressed h a button_id =
     (if button_id = ''select-btn'' then (action_select_current a, None)
      else if button_id = ''refresh-btn'' then action_refresh h a
      else if button_id = ''back-btn'' then action_go_back h a
      else (a, None))"

subsection \<open>Sessions\<close>

text \<open>
  The events the application handles: the messages of the toolkit and the key bindings
  \<open>enter\<close> (with the cursor row), \<open>backspace\<close>, \<open>ctrl+s\<close> and \<open>r\<close>. The bindings
  \<open>q\<close> and \<open>ctrl+l\<close> touch no state of the program.
\<close>

datatype event =
  RowSelected "nat option"
| InputSubmitted string string
| ButtonPressed string
| KeyOpen nat
| KeyBack
| KeySelect
| KeyRefresh

fun step :: "host \<Rightarrow> event \<Rightarrow> app \<Rightarrow> app \<times> exn option" where
  "step h (RowSelected row_key) a = on_file_table_row_selected h a row_key"
| "step h (InputSubmitted input_id text_value) a = on_input_submitted h a input_id text_value"
| "step h (ButtonPressed button_id) a = on_button_pressed h a button_id"
| "step h (KeyOpen cursor_row) a = action_open_selected h a cursor_row"
| "step h KeyBack a = action_go_back h a"
| "step h KeySelect a = (action_select_current a, None)"
| "step h KeyRefresh a = action_refresh h a"

text \<open>
  A run handles the events in turn, each against the host as it is at that moment; an
  exception that leaves a handler ends the application.
\<close>

fun run :: "(host \<times> event) list \<Rightarrow> app \<Rightarrow> app \<times> exn option" where
  "run [] a = (a, None)"
| "run ((h, ev) # evs) a =
     (case step h ev a of
        (a', Some x) \<Rightarrow> (a', Some x)
      | (a', None) \<Rightarrow> run evs a')"

text \<open>A session starts the application in \<open>cwd\<close>, mounts it and runs the events.\<close>

definition session :: "path \<Rightarrow> host \<Rightarrow> (host \<times> event) list \<Rightarrow> app \<times> exn option" where
  "session cwd h evs =
     (case on_mount h (new_app cwd) of
        (a, Some x) \<Rightarrow> (a, Some x)
      | (a, None) \<Rightarrow> run evs a)"

subsection \<open>Predicates of the claims\<close>

definition row_kind :: "row \<Rightarrow> string" where
  "row_kind r = fst (snd r)"

definition is_nav_row :: "row \<Rightarrow> bool" where
  "is_nav_row r = (row_kind r = ''NAV'')"

definition is_dir_row :: "row \<Rightarrow> bool" where
  "is_dir_row r = (row_kind r = ''DIR'')"

definition is_file_row :: "row \<Rightarrow> bool" where
  "is_file_row r = (row_kind r = ''FILE'')"

text \<open>
  The ordering invariant of a listing: no navigation row after a row that is not one, no
  directory row from the first file row on, and the directory rows and the file rows each
  ascending by the lower-cased display name.
\<close>

definition listing_ordered :: "host \<Rightarrow> row list \<Rightarrow> bool" where
  "listing_ordered h rs =
     (list_all (\<lambda>r. \<not> is_nav_row r) (dropWhile is_nav_row rs)
      \<and> list_all (\<lambda>r. \<not> is_dir_row r) (dropWhile (\<lambda>r. \<not> is_file_row r) rs)
      \<and> sorted (map (sort_name h) (filter is_dir_row rs))
      \<and> sorted (map (sort_name h) (filter is_file_row rs)))"

text \<open>
  The invariant of the table that every handler keeps: the history is empty before the
  first directory is loaded, and its last entry is never the directory being shown.
\<close>

definition table_wf :: "file_table \<Rightarrow> bool" where
  "table_wf tbl =
     (case current_directory tbl of
        None \<Rightarrow> directory_history tbl = []
      | Some cur \<Rightarrow> directory_history tbl = [] \<or> last (directory_history tbl) \<noteq> cur)"

text \<open>The three lines of the required items, as the loop of the validator leaves them.\<close>

definition presence_check :: "host \<Rightarrow> path \<Rightarrow> bool \<times> string list" where
  "presence_check h directory = check_required_items h directory required_items (True, [])"

subsection \<open>A file system to evaluate the program on\<close>

text \<open>
  \<^verbatim>\<open>/home\<close> holds the workspace \<^verbatim>\<open>ws\<close> (with \<^verbatim>\<open>logseq\<close>, \<^verbatim>\<open>pages\<close> with two
  notes and \<^verbatim>\<open>journals\<close> with one), a folder \<^verbatim>\<open>Zettel\<close> that cannot be listed, a
  file \<^verbatim>\<open>notes.txt\<close> of 1048575 bytes and a hidden file. The lower-casing of the
  example is the one of ASCII.
\<close>

definition ascii_lower_char :: "char \<Rightarrow> char" where
  "ascii_lower_char c =
     (case map_of (zip ''ABCDEFGHIJKLMNOPQRSTUVWXYZ'' ''abcdefghijklmnopqrstuvwxyz'') c of
        None \<Rightarrow> c
      | Some l \<Rightarrow> l)"

definition ascii_lower :: "string \<Rightarrow> string" where
  "ascii_lower s = map ascii_lower_char s"

definition demo_dirs :: "path list" where
  "demo_dirs =
     [[], [''home''], [''home'', ''ws''], [''home'', ''ws'', ''logseq''],
      [''home'', ''ws'', ''pages''], [''home'', ''ws'', ''journals''], [''home'', ''Zettel'']]"

definition demo_files :: "path list" where
  "demo_files =
     [[''home'', ''notes.txt''], [''home'', ''.profile''],
      [''home'', ''ws'', ''pages'', ''a.md''], [''home'', ''ws'', ''pages'', ''b.md''],
      [''home'', ''ws'', ''journals'', ''j.md'']]"

definition demo_iterdir :: "path \<Rightarrow> exn + string list" where
  "demo_iterdir p =
     (if p = [] then Inr [''home'']
      else if p = [''home''] then Inr [''Zettel'', ''notes.txt'', ''.profile'', ''ws'']
      else if p = [''home'', ''ws''] then Inr [''pages'', ''logseq'', ''journals'']
      else if p = [''home'', ''ws'', ''logseq''] then Inr []
      else if p = [''home'', ''ws'', ''pages''] then Inr [''a.md'', ''b.md'']
      else if p = [''home'', ''ws'', ''journals''] then Inr [''j.md'']
      else if p = [''home'', ''Zettel''] then Inl PermissionError
      else Inl OSError)"

definition demo_glob :: "path \<Rightarrow> string \<Rightarrow> exn + string list" where
  "demo_glob p pat =
     (if pat = ''*.md'' \<and> p = [''home'', ''ws'', ''pages''] then Inr [''a.md'', ''b.md'']
      else if pat = ''*.md'' \<and> p = [''home'', ''ws'', ''journals''] then Inr [''j.md'']
      else Inr [])"

definition demo_host :: host where
  "demo_host =
     \<lparr>path_exists = (\<lambda>p. p \<in> set demo_dirs \<or> p \<in> set demo_files),
      path_is_dir = (\<lambda>p. p \<in> set demo_dirs),
      path_iterdir = demo_iterdir,
      path_stat_size = (\<lambda>p. if p = [''home'', ''notes.txt''] then Inr 1048575 else Inr 4096),
      path_glob = demo_glob,
      path_resolve = (\<lambda>t. if t = ''/home/ws'' then Some [''home'', ''ws''] else None),
      str_lower = ascii_lower\<rparr>"

text \<open>The same file system with the notes unreadable: every \<^verbatim>\<open>glob\<close> raises.\<close>

definition demo_host_locked :: host where
  "demo_host_locked = demo_host\<lparr>path_glob := (\<lambda>p pat. Inl PermissionError)\<rparr>"

text \<open>The application mounted in \<^verbatim>\<open>/home\<close>.\<close>

definition demo_app :: app where
  "demo_app = fst (on_mount demo_host (new_app [''home'']))"

section \<open>Properties\<close>

subsection \<open>Evaluation\<close>

lemmas string_consts = back_icon_def up_icon_def folder_icon_def page_icon_def lock_icon_def
  check_mark_def cross_mark_def calendar_icon_def back_label_def up_label_def folder_prefix_def
  page_prefix_def not_a_directory_line_def

lemmas format_eval = format_size_def int_to_float_def round_to_53_def round_half_even_div_def
  bit_length.simps str_nat.simps digit_char_def Let_def

lemmas demo_fs = demo_host_def demo_host_locked_def demo_dirs_def demo_files_def
  demo_iterdir_def demo_glob_def ascii_lower_def ascii_lower_char_def

lemmas program_defs = is_os_error_def startswith_def joinpath_def parent_def required_items_def
  pages_line_def journals_line_def count_content_def validate_logseq_structure_def
  new_file_table_def back_row_def up_row_def error_row_def locked_entry_def scan_item_def
  sort_name_def list_entries_def load_directory_def go_back_def get_row_def
  new_logseq_status_def status_check_logseq_structure_def new_app_def notify_def
  check_logseq_structure_def refresh_all_def on_mount_def action_go_back_def
  action_select_current_def action_refresh_def on_file_table_row_selected_def
  action_open_selected_def on_input_submitted_def on_button_pressed_def session_def

subsection \<open>The size formatter\<close>




















text \<open>
  Claim C10. The byte count 1048575 is printed as \<open>1024KB\<close>: the division stops
  because \<open>1048575 / 1024\<close> is below 1024, and the value is then rounded to 1024.
\<close>

theorem format_size_rounds_up_to_1024:
  "format_size 1048575 = Inr ''1024KB''"
  by (simp add: format_eval)

subsection \<open>The validator\<close>

lemma check_required_items_fst:
  "fst (check_required_items h d items (v, s)) =
     (v \<and> list_all (\<lambda>item. path_exists h (joinpath d item) \<and> path_is_dir h (joinpath d item)) items)"
  by (induction items arbitrary: v s) (auto simp: Let_def)

lemma check_required_items_length:
  "length (snd (check_required_items h d items (v, s))) = length s + length items"
  by (induction items arbitrary: v s) (simp_all add: Let_def)

lemma check_required_items_glob:
  "check_required_items (h\<lparr>path_glob := g\<rparr>) d items acc = check_required_items h d items acc"
  by (induction items arbitrary: acc) (auto simp: Let_def)

lemma validate_fst:
  "fst (validate_logseq_structure h d) =
     (path_exists h d \<and> path_is_dir h d \<and> fst (presence_check h d))"
  by (auto simp: validate_logseq_structure_def presence_check_def split: prod.splits)

lemma presence_check_fst:
  "fst (presence_check h d) =
     (path_exists h (d @ [''logseq'']) \<and> path_is_dir h (d @ [''logseq''])
      \<and> path_exists h (d @ [''pages'']) \<and> path_is_dir h (d @ [''pages''])
      \<and> path_exists h (d @ [''journals'']) \<and> path_is_dir h (d @ [''journals'']))"
  by (simp add: presence_check_def check_required_items_fst required_items_def joinpath_def
      del: check_required_items.simps)

lemma presence_check_glob:
  "presence_check (h\<lparr>path_glob := g\<rparr>) d = presence_check h d"
  by (simp add: presence_check_def check_required_items_glob)

text \<open>
  Claim C4. The verdict of the validator is true exactly when the path is a directory and
  \<open>logseq\<close>, \<open>pages\<close> and \<open>journals\<close> exist as directories directly under it; it is
  the same whatever the enumeration of the note files does; for a path that does not
  exist or is not a directory the result is invalid with the single diagnostic line.
\<close>

theorem validator_verdict:
  "fst (validate_logseq_structure h d) =
     (path_exists h d \<and> path_is_dir h d
      \<and> path_exists h (d @ [''logseq'']) \<and> path_is_dir h (d @ [''logseq''])
      \<and> path_exists h (d @ [''pages'']) \<and> path_is_dir h (d @ [''pages''])
      \<and> path_exists h (d @ [''journals'']) \<and> path_is_dir h (d @ [''journals'']))
   \<and> fst (validate_logseq_structure (h\<lparr>path_glob := g\<rparr>) d) = fst (validate_logseq_structure h d)
   \<and> (\<not> (path_exists h d \<and> path_is_dir h d) \<longrightarrow>
        validate_logseq_structure h d = (False, [not_a_directory_line]))"
proof -
  have "fst (validate_logseq_structure (h\<lparr>path_glob := g\<rparr>) d) = fst (validate_logseq_structure h d)"
    by (simp add: validate_fst presence_check_glob)
  moreover have "\<not> (path_exists h d \<and> path_is_dir h d) \<longrightarrow>
        validate_logseq_structure h d = (False, [not_a_directory_line])"
    by (auto simp: validate_logseq_structure_def)
  ultimately show ?thesis
    by (simp only: validate_fst presence_check_fst)
qed

theorem validator_verdict_witness:
  "fst (validate_logseq_structure demo_host [''home'', ''ws''])
   \<and> \<not> fst (validate_logseq_structure demo_host [''home''])
   \<and> \<not> (path_exists demo_host [''nowhere''] \<and> path_is_dir demo_host [''nowhere''])
   \<and> validate_logseq_structure demo_host [''nowhere''] = (False, [not_a_directory_line])"
  using validator_verdict [of demo_host "[''home'', ''ws'']" demo_glob]
    validator_verdict [of demo_host "[''home'']" demo_glob]
    validator_verdict [of demo_host "[''nowhere'']" demo_glob]
  by (simp add: demo_fs)

lemma validate_snd:
  assumes "path_exists h d" "path_is_dir h d"
  shows "snd (validate_logseq_structure h d) = count_content h d (snd (presence_check h d))"
  using assms by (simp add: validate_logseq_structure_def presence_check_def split: prod.splits)

lemma presence_check_length: "length (snd (presence_check h d)) = 3"
  by (simp add: presence_check_def check_required_items_length required_items_def
      del: check_required_items.simps)

lemma count_content_prefix: "take (length s) (count_content h d s) = s"
  by (simp add: count_content_def Let_def split: sum.splits)

text \<open>
  Claim C8. For a directory that passes the existence check, the verdict and the first
  three lines of the summary are those of the presence check alone, and a count that
  fails adds no line: when the count of \<open>pages\<close> raises, the summary is the three lines;
  when only the count of \<open>journals\<close> raises, it is the three lines followed by the line
  of the pages count (if \<open>pages\<close> exists).
\<close>

theorem counting_failure_is_silent:
  assumes "path_exists h d" and "path_is_dir h d"
  shows "fst (validate_logseq_structure h d) = fst (presence_check h d)
     \<and> length (snd (presence_check h d)) = 3
     \<and> take 3 (snd (validate_logseq_structure h d)) = snd (presence_check h d)
     \<and> (path_exists h (d @ [''pages'']) \<and> path_glob h (d @ [''pages'']) ''*.md'' = Inl x \<longrightarrow>
          snd (validate_logseq_structure h d) = snd (presence_check h d))
     \<and> (path_exists h (d @ [''pages'']) \<and> path_glob h (d @ [''pages'']) ''*.md'' = Inr found
          \<and> path_exists h (d @ [''journals''])
          \<and> path_glob h (d @ [''journals'']) ''*.md'' = Inl y \<longrightarrow>
          snd (validate_logseq_structure h d) =
            snd (presence_check h d) @ [pages_line (length found)])
     \<and> (\<not> path_exists h (d @ [''pages'']) \<and> path_exists h (d @ [''journals''])
          \<and> path_glob h (d @ [''journals'']) ''*.md'' = Inl y \<longrightarrow>
          snd (validate_logseq_structure h d) = snd (presence_check h d))"
proof -
  have "take 3 (snd (validate_logseq_structure h d)) = snd (presence_check h d)"
    using count_content_prefix [of "snd (presence_check h d)" h d]
    by (simp add: validate_snd [OF assms] presence_check_length)
  then show ?thesis
    using assms
    by (simp add: validate_fst presence_check_length validate_snd count_content_def joinpath_def)
qed

theorem counting_failure_is_silent_witness:
  "path_exists demo_host_locked [''home'', ''ws'']
   \<and> path_is_dir demo_host_locked [''home'', ''ws'']
   \<and> path_exists demo_host_locked [''home'', ''ws'', ''pages'']
   \<and> path_glob demo_host_locked [''home'', ''ws'', ''pages''] ''*.md'' = Inl PermissionError
   \<and> fst (validate_logseq_structure demo_host_locked [''home'', ''ws''])
   \<and> snd (validate_logseq_structure demo_host_locked [''home'', ''ws'']) =
        [check_mark @ '' logseq/'', check_mark @ '' pages/'', check_mark @ '' journals/'']
   \<and> snd (validate_logseq_structure demo_host [''home'', ''ws'']) =
        [check_mark @ '' logseq/'', check_mark @ '' pages/'', check_mark @ '' journals/'',
         pages_line 2, journals_line 1]"
proof -
  have p: "presence_check demo_host_locked [''home'', ''ws''] =
      (True, [check_mark @ '' logseq/'', check_mark @ '' pages/'', check_mark @ '' journals/''])"
    by (simp add: presence_check_def program_defs demo_fs)
  have d: "path_exists demo_host_locked [''home'', ''ws'']
      \<and> path_is_dir demo_host_locked [''home'', ''ws'']
      \<and> path_exists demo_host_locked [''home'', ''ws'', ''pages'']
      \<and> path_glob demo_host_locked [''home'', ''ws'', ''pages''] ''*.md'' = Inl PermissionError"
    by (simp add: demo_fs)
  have e: "snd (validate_logseq_structure demo_host [''home'', ''ws'']) =
        [check_mark @ '' logseq/'', check_mark @ '' pages/'', check_mark @ '' journals/'',
         pages_line 2, journals_line 1]"
    by (simp add: program_defs demo_fs str_nat.simps digit_char_def)
  from d counting_failure_is_silent [of demo_host_locked "[''home'', ''ws'']" PermissionError]
  have "fst (validate_logseq_structure demo_host_locked [''home'', ''ws'']) =
          fst (presence_check demo_host_locked [''home'', ''ws''])
      \<and> snd (validate_logseq_structure demo_host_locked [''home'', ''ws'']) =
          snd (presence_check demo_host_locked [''home'', ''ws''])"
    by simp
  with p d e show ?thesis by simp
qed

subsection \<open>The listing\<close>

lemma nav_rows_kind: "is_nav_row back_row" "is_nav_row up_row"
  by (simp_all add: is_nav_row_def row_kind_def back_row_def up_row_def)

lemma error_row_kind:
  "\<not> is_nav_row error_row" "\<not> is_dir_row error_row" "\<not> is_file_row error_row"
  by (simp_all add: is_nav_row_def is_dir_row_def is_file_row_def row_kind_def error_row_def)

lemma locked_entry_kind:
  "locked_entry h item name = DirRow r \<Longrightarrow> is_dir_row r"
  "locked_entry h item name = FileRow r \<Longrightarrow> is_file_row r"
  by (auto simp: locked_entry_def is_dir_row_def is_file_row_def row_kind_def split: if_splits)

lemma locked_entry_not_skipped: "locked_entry h item name \<noteq> Skipped"
  by (simp add: locked_entry_def)

lemma scan_item_cases:
  "scan_item h d name = Inr sc \<Longrightarrow>
     sc = Skipped \<or> sc = locked_entry h (d @ [name]) name
     \<or> (\<exists>s. sc = DirRow (folder_prefix @ name, ''DIR'', s))
     \<or> (\<exists>s. sc = FileRow (page_prefix @ name, ''FILE'', s))"
  unfolding scan_item_def Let_def
  by (simp split: if_splits sum.splits) blast+

lemma scan_item_dir: "scan_item h d name = Inr (DirRow r) \<Longrightarrow> is_dir_row r"
  using scan_item_cases [of h d name "DirRow r"] locked_entry_kind(1) [of h "d @ [name]" name r]
  by (auto simp: is_dir_row_def row_kind_def)

lemma scan_item_file: "scan_item h d name = Inr (FileRow r) \<Longrightarrow> is_file_row r"
  using scan_item_cases [of h d name "FileRow r"] locked_entry_kind(2) [of h "d @ [name]" name r]
  by (auto simp: is_file_row_def row_kind_def)

lemma scan_items_kinds:
  "scan_items h d names (ds, fs) = Inr (ds', fs') \<Longrightarrow>
   list_all is_dir_row ds \<Longrightarrow> list_all is_file_row fs \<Longrightarrow>
   list_all is_dir_row ds' \<and> list_all is_file_row fs'"
proof (induction names arbitrary: ds fs)
  case Nil
  then show ?case by simp
next
  case (Cons name names)
  show ?case
  proof (cases "scan_item h d name")
    case (Inl x)
    with Cons.prems show ?thesis by simp
  next
    case (Inr sc)
    show ?thesis
    proof (cases sc)
      case Skipped
      with Inr Cons show ?thesis by simp
    next
      case (DirRow r)
      with Inr have "is_dir_row r" by (auto dest: scan_item_dir)
      with DirRow Inr Cons.prems Cons.IH [of "ds @ [r]" fs] show ?thesis by simp
    next
      case (FileRow r)
      with Inr have "is_file_row r" by (auto dest: scan_item_file)
      with FileRow Inr Cons.prems Cons.IH [of ds "fs @ [r]"] show ?thesis by simp
    qed
  qed
qed



lemma listing_ordered_blocks:
  assumes n: "list_all is_nav_row ns" and d: "list_all is_dir_row ds"
    and f: "list_all is_file_row fs"
  shows "listing_ordered h (ns @ sort_key (sort_name h) ds @ sort_key (sort_name h) fs)"
proof -
  let ?D = "sort_key (sort_name h) ds" and ?F = "sort_key (sort_name h) fs"
  from n have N: "\<forall>r\<in>set ns. row_kind r = ''NAV''"
    by (simp add: list_all_iff is_nav_row_def)
  from d have D: "\<forall>r\<in>set ?D. row_kind r = ''DIR''"
    by (simp add: list_all_iff is_dir_row_def)
  from f have F: "\<forall>r\<in>set ?F. row_kind r = ''FILE''"
    by (simp add: list_all_iff is_file_row_def)
  have "dropWhile is_nav_row (ns @ ?D @ ?F) = dropWhile is_nav_row (?D @ ?F)"
    using N by (intro dropWhile_append2) (simp add: is_nav_row_def)
  moreover have "\<forall>r\<in>set (?D @ ?F). \<not> is_nav_row r"
    using D F unfolding is_nav_row_def set_append by fastforce
  ultimately have 1: "list_all (\<lambda>r. \<not> is_nav_row r) (dropWhile is_nav_row (ns @ ?D @ ?F))"
    unfolding list_all_iff by (metis set_dropWhileD)
  have "dropWhile (\<lambda>r. \<not> is_file_row r) ((ns @ ?D) @ ?F) = dropWhile (\<lambda>r. \<not> is_file_row r) ?F"
  proof (intro dropWhile_append2)
    fix r assume "r \<in> set (ns @ ?D)"
    with N D have "row_kind r = ''NAV'' \<or> row_kind r = ''DIR''" unfolding set_append by blast
    then show "\<not> is_file_row r" unfolding is_file_row_def by auto
  qed
  moreover have "\<forall>r\<in>set ?F. \<not> is_dir_row r"
    using F unfolding is_dir_row_def by fastforce
  ultimately have 2:
    "list_all (\<lambda>r. \<not> is_dir_row r) (dropWhile (\<lambda>r. \<not> is_file_row r) (ns @ ?D @ ?F))"
    unfolding list_all_iff append_assoc by (metis set_dropWhileD)
  have dn: "filter is_dir_row ns = []" using N by (auto simp: filter_empty_conv is_dir_row_def)
  have dd: "filter is_dir_row ?D = ?D" using D by (auto simp: filter_id_conv is_dir_row_def)
  have df: "filter is_dir_row ?F = []" using F by (auto simp: filter_empty_conv is_dir_row_def)
  have fn: "filter is_file_row ns = []" using N by (auto simp: filter_empty_conv is_file_row_def)
  have fd: "filter is_file_row ?D = []" using D by (auto simp: filter_empty_conv is_file_row_def)
  have ff: "filter is_file_row ?F = ?F" using F by (auto simp: filter_id_conv is_file_row_def)
  have 3: "sorted (map (sort_name h) (filter is_dir_row (ns @ ?D @ ?F)))"
    unfolding filter_append dn dd df by (simp add: sorted_sort_key)
  have 4: "sorted (map (sort_name h) (filter is_file_row (ns @ ?D @ ?F)))"
    unfolding filter_append fn fd ff by (simp add: sorted_sort_key)
  from 1 2 3 4 show ?thesis unfolding listing_ordered_def by blast
qed


lemma list_entries_ordered:
  assumes "list_entries h tbl d = Inr entries"
  shows "listing_ordered h entries"
proof -
  let ?ns = "(if directory_history tbl \<noteq> [] then [back_row] else [])
              @ (if parent d \<noteq> d then [up_row] else [])"
  from assms obtain names ds fs where
    s: "scan_items h d names ([], []) = Inr (ds, fs)" and
    e: "entries = ?ns @ sort_key (sort_name h) ds @ sort_key (sort_name h) fs"
    unfolding list_entries_def Let_def by (auto split: sum.splits)
  from scan_items_kinds [OF s] have "list_all is_dir_row ds" "list_all is_file_row fs"
    by simp_all
  moreover have "list_all is_nav_row ?ns" by (simp add: nav_rows_kind)
  ultimately show ?thesis unfolding e by (rule listing_ordered_blocks [rotated 1])
qed

lemma listing_ordered_trivial: "listing_ordered h []" "listing_ordered h [error_row]"
  by (simp_all add: listing_ordered_def error_row_kind)

lemma load_directory_rows:
  "rows (fst (load_directory h tbl d a)) = [] \<or>
   rows (fst (load_directory h tbl d a)) = [error_row] \<or>
   (\<exists>tbl'. list_entries h tbl' d = Inr (rows (fst (load_directory h tbl d a))))"
  unfolding load_directory_def Let_def
  by (simp split: sum.splits) blast

text \<open>
  Claim C5. The rows that \<^verbatim>\<open>load_directory\<close> leaves in the table are ordered,
  whatever the file system, the table before and the directory: the navigation rows
  come before every other row, no directory row comes after a file row, and the
  directory rows and the file rows are each ascending by the lower-cased display name.
\<close>

theorem listing_is_ordered:
  "listing_ordered h (rows (fst (load_directory h tbl d a)))"
  using load_directory_rows [of h tbl d a] listing_ordered_trivial [of h]
  by (metis list_entries_ordered)

theorem listing_is_ordered_witness:
  "listing_ordered demo_host (rows (fst (load_directory demo_host new_file_table [''home''] True)))
   \<and> rows (fst (load_directory demo_host new_file_table [''home''] True)) =
       [up_row, (folder_prefix @ ''ws'', ''DIR'', ''3 items''),
        (folder_prefix @ ''Zettel'', ''DIR'', ''folder''),
        (page_prefix @ ''notes.txt'', ''FILE'', ''1024KB'')]
   \<and> \<not> listing_ordered demo_host
        [(folder_prefix @ ''Zettel'', ''DIR'', ''folder''),
         (folder_prefix @ ''ws'', ''DIR'', ''3 items'')]
   \<and> \<not> listing_ordered demo_host
        [(page_prefix @ ''notes.txt'', ''FILE'', ''1024KB''),
         (folder_prefix @ ''ws'', ''DIR'', ''3 items'')]
   \<and> \<not> listing_ordered demo_host
        [(folder_prefix @ ''ws'', ''DIR'', ''3 items''), up_row]"
proof -
  have r: "rows (fst (load_directory demo_host new_file_table [''home''] True)) =
       [up_row, (folder_prefix @ ''ws'', ''DIR'', ''3 items''),
        (folder_prefix @ ''Zettel'', ''DIR'', ''folder''),
        (page_prefix @ ''notes.txt'', ''FILE'', ''1024KB'')]"
    by (simp add: program_defs demo_fs format_eval string_consts)
  have n: "\<not> listing_ordered demo_host
        [(folder_prefix @ ''Zettel'', ''DIR'', ''folder''),
         (folder_prefix @ ''ws'', ''DIR'', ''3 items'')]
   \<and> \<not> listing_ordered demo_host
        [(page_prefix @ ''notes.txt'', ''FILE'', ''1024KB''),
         (folder_prefix @ ''ws'', ''DIR'', ''3 items'')]
   \<and> \<not> listing_ordered demo_host
        [(folder_prefix @ ''ws'', ''DIR'', ''3 items''), up_row]"
    by (simp add: listing_ordered_def is_nav_row_def is_dir_row_def is_file_row_def row_kind_def
        sort_name_def up_row_def demo_fs string_consts)
  from listing_is_ordered [of demo_host new_file_table "[''home'']" True] r n
  show ?thesis by simp
qed

text \<open>
  Claim C6. If the directory exists and its enumeration raises \<^verbatim>\<open>PermissionError\<close>,
  \<^verbatim>\<open>load_directory\<close> returns normally and leaves exactly one row in the table, the
  error row: its type is \<open>ERROR\<close>, so the table holds no navigation row and no row of
  an entry.
\<close>

theorem unreadable_directory_listing:
  assumes "path_exists h d" and "path_is_dir h d" and "path_iterdir h d = Inl PermissionError"
  shows "rows (fst (load_directory h tbl d a)) = [error_row]
     \<and> snd (load_directory h tbl d a) = None
     \<and> row_kind error_row = ''ERROR''
     \<and> \<not> is_nav_row error_row \<and> \<not> is_dir_row error_row \<and> \<not> is_file_row error_row"
proof -
  have r: "rows (fst (load_directory h tbl d a)) = [error_row]
     \<and> snd (load_directory h tbl d a) = None"
    using assms
    by (simp add: load_directory_def list_entries_def Let_def)
  have k: "row_kind error_row = ''ERROR''"
    by (simp add: row_kind_def error_row_def)
  from r k error_row_kind show ?thesis by blast
qed


theorem unreadable_directory_listing_witness:
  "path_exists demo_host [''home'', ''Zettel''] \<and> path_is_dir demo_host [''home'', ''Zettel'']
   \<and> path_iterdir demo_host [''home'', ''Zettel''] = Inl PermissionError
   \<and> rows (fst (load_directory demo_host (table demo_app) [''home'', ''Zettel''] True)) =
        [error_row]"
proof -
  have d: "path_exists demo_host [''home'', ''Zettel''] \<and> path_is_dir demo_host [''home'', ''Zettel'']
   \<and> path_iterdir demo_host [''home'', ''Zettel''] = Inl PermissionError"
    by (simp add: demo_fs)
  with unreadable_directory_listing [of demo_host "[''home'', ''Zettel'']" "table demo_app" True]
  show ?thesis by simp
qed

subsection \<open>The navigation history\<close>

lemma load_directory_fst:
  "\<exists>rs. fst (load_directory h tbl d b) =
     (case current_directory tbl of
        None \<Rightarrow> tbl
      | Some cur \<Rightarrow>
          if b \<and> cur \<noteq> d then tbl\<lparr>directory_history := directory_history tbl @ [cur]\<rparr>
          else tbl)\<lparr>current_directory := Some d, rows := rs\<rparr>"
proof -
  let ?t1 = "case current_directory tbl of
        None \<Rightarrow> tbl
      | Some cur \<Rightarrow>
          if b \<and> cur \<noteq> d then tbl\<lparr>directory_history := directory_history tbl @ [cur]\<rparr>
          else tbl"
  let ?t2 = "?t1\<lparr>current_directory := Some d, rows := []\<rparr>"
  show ?thesis
  proof (cases "\<not> path_exists h d \<or> \<not> path_is_dir h d")
    case True
    then have "fst (load_directory h tbl d b) = ?t2"
      unfolding load_directory_def Let_def by simp
    then show ?thesis by blast
  next
    case False
    show ?thesis
    proof (cases "list_entries h ?t2 d")
      case (Inr entries)
      with False have "fst (load_directory h tbl d b) = ?t2\<lparr>rows := entries\<rparr>"
        unfolding load_directory_def Let_def by simp
      then have "fst (load_directory h tbl d b) = ?t1\<lparr>current_directory := Some d, rows := entries\<rparr>"
        by simp
      then show ?thesis by blast
    next
      case (Inl x)
      show ?thesis
      proof (cases "x = PermissionError")
        case True
        with Inl False have "fst (load_directory h tbl d b) = ?t2\<lparr>rows := [error_row]\<rparr>"
          unfolding load_directory_def Let_def by simp
        then have "fst (load_directory h tbl d b) =
            ?t1\<lparr>current_directory := Some d, rows := [error_row]\<rparr>"
          by simp
        then show ?thesis by blast
      next
        case nP: False
        with Inl False have "fst (load_directory h tbl d b) = ?t2"
          unfolding load_directory_def Let_def by simp
        then show ?thesis by blast
      qed
    qed
  qed
qed

lemma load_directory_current:
  "current_directory (fst (load_directory h tbl d b)) = Some d"
  using load_directory_fst [of h tbl d b] by auto

lemma load_directory_history:
  "directory_history (fst (load_directory h tbl d b)) =
     (case current_directory tbl of
        None \<Rightarrow> directory_history tbl
      | Some cur \<Rightarrow>
          if b \<and> cur \<noteq> d then directory_history tbl @ [cur] else directory_history tbl)"
  using load_directory_fst [of h tbl d b] by (auto split: option.splits)

lemma load_directory_wf:
  "table_wf tbl \<Longrightarrow> table_wf (fst (load_directory h tbl d True))"
  unfolding table_wf_def load_directory_current load_directory_history
  by (auto split: option.splits)

lemma load_directory_length:
  "length (directory_history tbl)
     \<le> length (directory_history (fst (load_directory h tbl d True)))"
  unfolding load_directory_history
  by (simp split: option.splits)

lemma refresh_all_table:
  "table (fst (refresh_all h a)) = fst (load_directory h (table a) (app_current_directory a) True)"
  unfolding refresh_all_def check_logseq_structure_def Let_def
  by (simp split: prod.splits option.splits)

lemma refresh_all_current:
  "app_current_directory (fst (refresh_all h a)) = app_current_directory a"
  unfolding refresh_all_def check_logseq_structure_def Let_def
  by (simp split: prod.splits option.splits)

lemma action_go_back_empty:
  "directory_history (table a) = [] \<Longrightarrow> action_go_back h a = (notify a AlreadyAtStart, None)"
  unfolding action_go_back_def go_back_def by simp

lemma action_go_back_table:
  "directory_history (table a) \<noteq> [] \<Longrightarrow>
   table (fst (action_go_back h a)) =
     fst (load_directory h
            ((table a)\<lparr>directory_history := butlast (directory_history (table a))\<rparr>)
            (last (directory_history (table a))) True)"
  unfolding action_go_back_def go_back_def by (simp add: refresh_all_table)

lemma action_go_back_history:
  assumes "table_wf (table a)" and "directory_history (table a) \<noteq> []"
    and "current_directory (table a) = Some cur"
  shows "directory_history (table (fst (action_go_back h a))) =
           butlast (directory_history (table a)) @ [cur]"
    and "current_directory (table (fst (action_go_back h a))) =
           Some (last (directory_history (table a)))"
    and "app_current_directory (fst (action_go_back h a)) = last (directory_history (table a))"
proof -
  from assms have "last (directory_history (table a)) \<noteq> cur"
    unfolding table_wf_def by simp
  then show "directory_history (table (fst (action_go_back h a))) =
           butlast (directory_history (table a)) @ [cur]"
    using assms(2,3) by (auto simp: action_go_back_table load_directory_history)
  show "current_directory (table (fst (action_go_back h a))) =
           Some (last (directory_history (table a)))"
    using assms(2) by (simp add: action_go_back_table load_directory_current)
  show "app_current_directory (fst (action_go_back h a)) = last (directory_history (table a))"
    using assms(2) unfolding action_go_back_def go_back_def
    by (simp add: refresh_all_current)
qed

lemma action_go_back_keeps:
  assumes "table_wf (table a)"
  shows "table_wf (table (fst (action_go_back h a)))"
    and "length (directory_history (table a))
           \<le> length (directory_history (table (fst (action_go_back h a))))"
proof -
  show "table_wf (table (fst (action_go_back h a)))"
  proof (cases "directory_history (table a) = []")
    case True
    with assms show ?thesis by (simp add: action_go_back_empty notify_def)
  next
    case False
    with assms obtain cur where c: "current_directory (table a) = Some cur"
      unfolding table_wf_def by (cases "current_directory (table a)") auto
    from action_go_back_history [OF assms False c] show ?thesis
      unfolding table_wf_def using assms False c by (simp add: table_wf_def)
  qed
  show "length (directory_history (table a))
           \<le> length (directory_history (table (fst (action_go_back h a))))"
  proof (cases "directory_history (table a) = []")
    case True
    then show ?thesis by simp
  next
    case False
    with assms obtain cur where c: "current_directory (table a) = Some cur"
      unfolding table_wf_def by (cases "current_directory (table a)") auto
    from action_go_back_history(1) [OF assms False c] False show ?thesis by simp
  qed
qed


lemma on_file_table_row_selected_table:
  "table (fst (on_file_table_row_selected h a k)) = table a
   \<or> (\<exists>p. table (fst (on_file_table_row_selected h a k)) = fst (load_directory h (table a) p True))
   \<or> table (fst (on_file_table_row_selected h a k)) = table (fst (action_go_back h a))"
  unfolding on_file_table_row_selected_def
  by (auto simp: refresh_all_table check_logseq_structure_def Let_def
      split: option.splits sum.splits prod.splits)

lemma action_open_selected_table:
  "table (fst (action_open_selected h a k)) = table a
   \<or> (\<exists>p. table (fst (action_open_selected h a k)) = fst (load_directory h (table a) p True))
   \<or> table (fst (action_open_selected h a k)) = table (fst (action_go_back h a))"
  unfolding action_open_selected_def
  by (auto simp: refresh_all_table split: option.splits sum.splits prod.splits)

lemma refresh_all_result:
  obtains a' x where "refresh_all h b = (a', x)"
    and "table a' = fst (load_directory h (table b) (app_current_directory b) True)"
proof -
  obtain a' x where r: "refresh_all h b = (a', x)" by (cases "refresh_all h b")
  with refresh_all_table [of h b]
  have "table a' = fst (load_directory h (table b) (app_current_directory b) True)" by simp
  with r show ?thesis by (rule that)
qed

lemma on_input_submitted_table:
  "table (fst (on_input_submitted h a i t)) = table a
   \<or> (\<exists>p. table (fst (on_input_submitted h a i t)) = fst (load_directory h (table a) p True))"
proof (cases "i = ''path-input''")
  case False
  then show ?thesis unfolding on_input_submitted_def by simp
next
  case True
  show ?thesis
  proof (cases "path_resolve h t")
    case None
    with True show ?thesis unfolding on_input_submitted_def by (simp add: notify_def)
  next
    case (Some np)
    show ?thesis
    proof (cases "path_exists h np \<and> path_is_dir h np")
      case False
      with True Some show ?thesis unfolding on_input_submitted_def by (auto simp: notify_def)
    next
      case ok: True
      obtain a' x where r: "refresh_all h (a\<lparr>app_current_directory := np\<rparr>) = (a', x)"
        and t: "table a' = fst (load_directory h (table a) np True)"
        using refresh_all_result [of h "a\<lparr>app_current_directory := np\<rparr>"] by auto
      have "table (fst (on_input_submitted h a i t)) = table a'"
        using True Some ok r unfolding on_input_submitted_def
        by (cases x) (simp_all add: notify_def)
      with t show ?thesis by auto
    qed
  qed
qed

lemma action_refresh_table:
  "table (fst (action_refresh h a)) = fst (load_directory h (table a) (app_current_directory a) True)"
proof -
  obtain a' x where r: "refresh_all h a = (a', x)"
    and t: "table a' = fst (load_directory h (table a) (app_current_directory a) True)"
    using refresh_all_result [of h a] by auto
  have "table (fst (action_refresh h a)) = table a'"
    using r unfolding action_refresh_def by (cases x) (simp_all add: notify_def)
  with t show ?thesis by simp
qed

lemma action_select_current_table: "table (action_select_current a) = table a"
  unfolding action_select_current_def by (simp add: notify_def)

lemma on_button_pressed_table:
  "table (fst (on_button_pressed h a b)) = table a
   \<or> (\<exists>p. table (fst (on_button_pressed h a b)) = fst (load_directory h (table a) p True))
   \<or> table (fst (on_button_pressed h a b)) = table (fst (action_go_back h a))"
  unfolding on_button_pressed_def
  by (auto simp: action_refresh_table action_select_current_table)

lemma step_table:
  "table (fst (step h ev a)) = table a
   \<or> (\<exists>p. table (fst (step h ev a)) = fst (load_directory h (table a) p True))
   \<or> table (fst (step h ev a)) = table (fst (action_go_back h a))"
proof (cases ev)
  case (RowSelected k)
  then show ?thesis using on_file_table_row_selected_table [of h a k] by simp
next
  case (InputSubmitted i t)
  then show ?thesis using on_input_submitted_table [of h a i t] by auto
next
  case (ButtonPressed b)
  then show ?thesis using on_button_pressed_table [of h a b] by simp
next
  case (KeyOpen k)
  then show ?thesis using action_open_selected_table [of h a k] by simp
next
  case KeyBack
  then show ?thesis by simp
next
  case KeySelect
  then show ?thesis by (simp add: action_select_current_table)
next
  case KeyRefresh
  then show ?thesis using action_refresh_table [of h a] by auto
qed

lemma step_keeps:
  assumes "table_wf (table a)"
  shows "table_wf (table (fst (step h ev a)))
     \<and> length (directory_history (table a))
          \<le> length (directory_history (table (fst (step h ev a))))"
  using step_table [of h ev a] assms action_go_back_keeps [OF assms, of h]
    load_directory_wf [OF assms, of h] load_directory_length [of "table a" h]
  by (elim disjE exE) simp_all

lemma run_keeps:
  "table_wf (table a) \<Longrightarrow>
   table_wf (table (fst (run evs a)))
     \<and> length (directory_history (table a))
          \<le> length (directory_history (table (fst (run evs a))))"
proof (induction evs arbitrary: a)
  case Nil
  then show ?case by simp
next
  case (Cons hev evs)
  obtain h ev where hev: "hev = (h, ev)" by (cases hev)
  obtain a' x where s: "step h ev a = (a', x)" by (cases "step h ev a")
  from step_keeps [OF Cons.prems, of h ev] s
  have k: "table_wf (table a')"
    "length (directory_history (table a)) \<le> length (directory_history (table a'))"
    by simp_all
  show ?case
  proof (cases x)
    case None
    with hev s k Cons.IH [OF k(1)] show ?thesis by simp
  next
    case (Some e)
    with hev s k show ?thesis by simp
  qed
qed

lemma run_append:
  "run (evs @ evs2) a =
     (case run evs a of (a', Some x) \<Rightarrow> (a', Some x) | (a', None) \<Rightarrow> run evs2 a')"
proof (induction evs arbitrary: a)
  case Nil
  then show ?case by simp
next
  case (Cons hev evs)
  obtain h ev where hev: "hev = (h, ev)" by (cases hev)
  show ?case unfolding hev using Cons.IH
    by (simp split: prod.splits option.splits)
qed

lemma on_mount_wf: "table_wf (table (fst (on_mount h (new_app cwd))))"
proof -
  have "table_wf (table (new_app cwd))"
    by (simp add: new_app_def new_file_table_def table_wf_def)
  then show ?thesis
    unfolding on_mount_def refresh_all_table by (rule load_directory_wf)
qed

lemma session_wf: "table_wf (table (fst (session cwd h evs)))"
proof -
  obtain a x where m: "on_mount h (new_app cwd) = (a, x)" by (cases "on_mount h (new_app cwd)")
  with on_mount_wf [of h cwd] have w: "table_wf (table a)" by simp
  show ?thesis
  proof (cases x)
    case None
    with m run_keeps [OF w, of evs] show ?thesis by (simp add: session_def)
  next
    case (Some e)
    with m w show ?thesis by (simp add: session_def)
  qed
qed

lemma session_history_grows:
  "length (directory_history (table (fst (session cwd h evs))))
     \<le> length (directory_history (table (fst (session cwd h (evs @ evs2)))))"
proof -
  obtain a x where m: "on_mount h (new_app cwd) = (a, x)" by (cases "on_mount h (new_app cwd)")
  with on_mount_wf [of h cwd] have w: "table_wf (table a)" by simp
  show ?thesis
  proof (cases x)
    case (Some e)
    with m show ?thesis by (simp add: session_def)
  next
    case None
    obtain a' y where r: "run evs a = (a', y)" by (cases "run evs a")
    with run_keeps [OF w, of evs] have w': "table_wf (table a')" by simp
    show ?thesis
    proof (cases y)
      case (Some e)
      with None m r show ?thesis by (simp add: session_def run_append)
    next
      case n: None
      with None m r run_keeps [OF w', of evs2] show ?thesis
        by (simp add: session_def run_append)
    qed
  qed
qed

text \<open>
  Claim C9. In every session, once the history holds an entry it is never empty again,
  whatever events follow. In every state of a session with a history that is not empty,
  the directory shown differs from the last entry of the history; so \<^verbatim>\<open>action_go_back\<close>
  pops that entry and the reload pushes the directory being left: the history keeps its
  length, its last entry becomes the directory left, and the directory shown becomes
  the popped entry. A second \<^verbatim>\<open>action_go_back\<close> restores the history and the directory
  shown: repeated calls alternate between the two directories.
\<close>

theorem go_back_keeps_history:
  assumes a: "a = fst (session cwd h evs)"
    and ne: "directory_history (table a) \<noteq> []"
  shows "directory_history (table (fst (session cwd h (evs @ evs2)))) \<noteq> []
     \<and> (\<exists>cur. current_directory (table a) = Some cur
          \<and> cur \<noteq> last (directory_history (table a))
          \<and> directory_history (table (fst (action_go_back h1 a))) =
              butlast (directory_history (table a)) @ [cur]
          \<and> length (directory_history (table (fst (action_go_back h1 a)))) =
              length (directory_history (table a))
          \<and> current_directory (table (fst (action_go_back h1 a))) =
              Some (last (directory_history (table a)))
          \<and> app_current_directory (fst (action_go_back h1 a)) =
              last (directory_history (table a))
          \<and> directory_history (table (fst (action_go_back h2 (fst (action_go_back h1 a))))) =
              directory_history (table a)
          \<and> current_directory (table (fst (action_go_back h2 (fst (action_go_back h1 a))))) =
              Some cur
          \<and> app_current_directory (fst (action_go_back h2 (fst (action_go_back h1 a)))) = cur)"
proof -
  let ?hist = "directory_history (table a)"
  let ?b = "fst (action_go_back h1 a)"
  let ?c = "fst (action_go_back h2 ?b)"
  have w: "table_wf (table a)" unfolding a by (rule session_wf)
  from session_history_grows [of cwd h evs evs2] ne
  have 1: "directory_history (table (fst (session cwd h (evs @ evs2)))) \<noteq> []"
    unfolding a by auto
  from w ne obtain cur where c: "current_directory (table a) = Some cur"
    unfolding table_wf_def by (cases "current_directory (table a)") auto
  from w ne c have d: "cur \<noteq> last ?hist" unfolding table_wf_def by auto
  note b = action_go_back_history [OF w ne c, of h1]
  have wb: "table_wf (table ?b)" using w by (rule action_go_back_keeps(1))
  have neb: "directory_history (table ?b) \<noteq> []" using b(1) by simp
  note cc = action_go_back_history [OF wb neb b(2), of h2]
  have l: "length (directory_history (table ?b)) = length ?hist"
    using b(1) ne by simp
  have h2: "directory_history (table ?c) = ?hist"
    using cc(1) b(1) ne by simp
  have c2: "current_directory (table ?c) = Some cur"
    using cc(2) b(1) by simp
  have a2: "app_current_directory ?c = cur"
    using cc(3) b(1) by simp
  from 1 c d b l h2 c2 a2 show ?thesis by blast
qed

theorem go_back_keeps_history_witness:
  "directory_history (table (fst (session [''home''] demo_host [(demo_host, InputSubmitted ''path-input'' ''/home/ws'')]))) =
     [[''home'']]
   \<and> current_directory (table (fst (session [''home''] demo_host [(demo_host, InputSubmitted ''path-input'' ''/home/ws'')]))) =
     Some [''home'', ''ws'']
   \<and> directory_history (table (fst (session [''home''] demo_host
        ([(demo_host, InputSubmitted ''path-input'' ''/home/ws'')] @ [(demo_host, KeyBack), (demo_host, KeyBack)])))) \<noteq> []
   \<and> directory_history (table (fst (action_go_back demo_host
        (fst (session [''home''] demo_host [(demo_host, InputSubmitted ''path-input'' ''/home/ws'')]))))) = [[''home'', ''ws'']]
   \<and> current_directory (table (fst (action_go_back demo_host
        (fst (session [''home''] demo_host [(demo_host, InputSubmitted ''path-input'' ''/home/ws'')]))))) = Some [''home'']
   \<and> directory_history (table (fst (action_go_back demo_host (fst (action_go_back demo_host
        (fst (session [''home''] demo_host [(demo_host, InputSubmitted ''path-input'' ''/home/ws'')]))))))) = [[''home'']]
   \<and> current_directory (table (fst (action_go_back demo_host (fst (action_go_back demo_host
        (fst (session [''home''] demo_host [(demo_host, InputSubmitted ''path-input'' ''/home/ws'')]))))))) =
     Some [''home'', ''ws'']"
proof -
  let ?a = "fst (session [''home''] demo_host [(demo_host, InputSubmitted ''path-input'' ''/home/ws'')])"
  have e: "current_directory (table ?a) = Some [''home'', ''ws'']
     \<and> directory_history (table ?a) = [[''home'']]"
    by (simp add: program_defs demo_fs format_eval string_consts str_replace.simps)
  then have ne: "directory_history (table ?a) \<noteq> []" by simp
  from go_back_keeps_history [OF refl ne,
      of "[(demo_host, KeyBack), (demo_host, KeyBack)]" demo_host demo_host] e
  show ?thesis by auto
qed

text \<open>
  Claim C1, as the program has it. After the application is mounted in \<open>C\<close> and one
  forward navigation leads to a directory \<open>P\<close> other than \<open>C\<close>, the history is
  \<open>[C]\<close>. \<^verbatim>\<open>action_go_back\<close> then returns the current directory to \<open>C\<close>, but it
  does not leave the history empty: \<^verbatim>\<open>refresh_all\<close> calls \<^verbatim>\<open>load_directory\<close> with
  \<^verbatim>\<open>add_to_history\<close> at its default, which pushes \<open>P\<close>, and the history is \<open>[P]\<close>.
\<close>

theorem go_back_after_one_navigation:
  assumes "P \<noteq> C"
    and "a0 = fst (on_mount h0 (new_app C))"
    and "a1 = fst (refresh_all h1 (a0\<lparr>app_current_directory := P\<rparr>))"
    and "a2 = fst (action_go_back h2 a1)"
  shows "current_directory (table a0) = Some C \<and> directory_history (table a0) = []
     \<and> current_directory (table a1) = Some P \<and> directory_history (table a1) = [C]
     \<and> app_current_directory a2 = C \<and> current_directory (table a2) = Some C
     \<and> directory_history (table a2) = [P]
     \<and> directory_history (table a2) \<noteq> []"
proof -
  have t0: "table a0 = fst (load_directory h0 new_file_table C True)"
    unfolding assms(2) on_mount_def refresh_all_table by (simp add: new_app_def)
  have c0: "current_directory (table a0) = Some C"
    unfolding t0 by (rule load_directory_current)
  have h0: "directory_history (table a0) = []"
    unfolding t0 load_directory_history by (simp add: new_file_table_def)
  have t1: "table a1 = fst (load_directory h1 (table a0) P True)"
    unfolding assms(3) refresh_all_table by simp
  have c1: "current_directory (table a1) = Some P"
    unfolding t1 by (rule load_directory_current)
  have h1: "directory_history (table a1) = [C]"
    unfolding t1 load_directory_history using c0 h0 assms(1) by auto
  have w1: "table_wf (table a1)"
    unfolding table_wf_def using c1 h1 assms(1) by simp
  have ne: "directory_history (table a1) \<noteq> []" using h1 by simp
  from action_go_back_history [OF w1 ne c1, of h2] h1
  have "app_current_directory a2 = C" "current_directory (table a2) = Some C"
    "directory_history (table a2) = [P]"
    unfolding assms(4) by simp_all
  with c0 h0 c1 h1 show ?thesis by simp
qed

theorem go_back_after_one_navigation_witness:
  "[''home'', ''ws''] \<noteq> [''home'']
   \<and> directory_history (table (fst (action_go_back demo_host (fst (refresh_all demo_host
        ((fst (on_mount demo_host (new_app [''home''])))
           \<lparr>app_current_directory := [''home'', ''ws'']\<rparr>)))))) = [[''home'', ''ws'']]
   \<and> app_current_directory (fst (action_go_back demo_host (fst (refresh_all demo_host
        ((fst (on_mount demo_host (new_app [''home''])))
           \<lparr>app_current_directory := [''home'', ''ws'']\<rparr>))))) = [''home'']
   \<and> snd (session [''home''] demo_host [(demo_host, InputSubmitted ''path-input'' ''/home/ws''),
           (demo_host, ButtonPressed ''back-btn'')]) = None
   \<and> app_current_directory
        (fst (session [''home''] demo_host [(demo_host, InputSubmitted ''path-input'' ''/home/ws''),
           (demo_host, ButtonPressed ''back-btn'')])) =
       [''home'']
   \<and> directory_history (table
        (fst (session [''home''] demo_host [(demo_host, InputSubmitted ''path-input'' ''/home/ws''),
           (demo_host, ButtonPressed ''back-btn'')]))) =
       [[''home'', ''ws'']]"
proof -
  have d: "[''home'', ''ws''] \<noteq> [''home'']" by simp
  have s: "snd (session [''home''] demo_host [(demo_host, InputSubmitted ''path-input'' ''/home/ws''),
           (demo_host, ButtonPressed ''back-btn'')]) = None
   \<and> app_current_directory
        (fst (session [''home''] demo_host [(demo_host, InputSubmitted ''path-input'' ''/home/ws''),
           (demo_host, ButtonPressed ''back-btn'')])) =
       [''home'']
   \<and> directory_history (table
        (fst (session [''home''] demo_host [(demo_host, InputSubmitted ''path-input'' ''/home/ws''),
           (demo_host, ButtonPressed ''back-btn'')]))) =
       [[''home'', ''ws'']]"
    by (simp add: program_defs demo_fs format_eval string_consts str_replace.simps)
  from go_back_after_one_navigation [OF d refl refl refl, of demo_host demo_host demo_host] s
  show ?thesis by simp
qed

subsection \<open>Row activation and selection\<close>














end
